theory Spec2Isabelle
  imports Main
begin

section \<open>Data model of package pomodoro (interval.go)\<close>

text \<open>
  Categories are Go string constants, states are Go int constants numbered by \<open>iota\<close>.
  Both are kept at the width the source gives them: a stored interval may carry any
  string as its category and any integer as its state.
\<close>

definition CategoryPomodoro :: string where
  "CategoryPomodoro = ''Pomodoro''"

definition CategoryShortBreak :: string where
  "CategoryShortBreak = ''ShortBreak''"

definition CategoryLongBreak :: string where
  "CategoryLongBreak = ''LongBreak''"

definition StateNotStarted :: int where
  "StateNotStarted = 0"

definition StateRunning :: int where
  "StateRunning = 1"

definition StatePaused :: int where
  "StatePaused = 2"

definition StateDone :: int where
  "StateDone = 3"

definition StateCancelled :: int where
  "StateCancelled = 4"

text \<open>
  \<open>time.Duration\<close> counts nanoseconds; \<open>time.Time\<close> is kept as an abstract instant
  (an integer). Identifiers and durations are int64 in the source; they are modelled as
  unbounded integers, no operation of the source on them comes near the int64 bounds
  (an index computed from an id that is not in \<open>1..len\<close> is out of range with and
  without wrap-around).
\<close>

definition Second :: int where
  "Second = 1000000000"

definition Minute :: int where
  "Minute = 60 * Second"

record Interval =
  ID :: int
  StartTime :: int
  PlannedDuration :: int
  ActualDuration :: int
  Category :: string
  State :: int

text \<open>The zero value \<open>Interval{}\<close>.\<close>

definition Interval_zero :: Interval where
  "Interval_zero =
     \<lparr>ID = 0, StartTime = 0, PlannedDuration = 0, ActualDuration = 0,
      Category = [], State = 0\<rparr>"

text \<open>
  The error values of the package, and the two wrappers built with \<open>fmt.Errorf\<close>:
  \<open>Errorf_d e n\<close> is \<open>fmt.Errorf("%w: %d", e, n)\<close> and \<open>Errorf_Cannot_start e\<close> is
  \<open>fmt.Errorf("%w: Cannot start", e)\<close>. A wrapper is a different value from the error
  it wraps, as it is for Go's \<open>==\<close>.
\<close>

datatype error =
    ErrNoIntervals
  | ErrIntervalNotRunning
  | ErrIntervalCompleted
  | ErrInvalidState
  | ErrInvalidID
  | Errorf_d error int
  | Errorf_Cannot_start error

text \<open>\<open>errors.Unwrap\<close> and \<open>errors.Is\<close> on these values.\<close>

fun Unwrap :: "error \<Rightarrow> error option" where
  "Unwrap (Errorf_d e n) = Some e"
| "Unwrap (Errorf_Cannot_start e) = Some e"
| "Unwrap e = None"

fun errors_Is :: "error \<Rightarrow> error \<Rightarrow> bool" where
  "errors_Is (Errorf_d e n) target = (Errorf_d e n = target \<or> errors_Is e target)"
| "errors_Is (Errorf_Cannot_start e) target =
     (Errorf_Cannot_start e = target \<or> errors_Is e target)"
| "errors_Is e target = (e = target)"

text \<open>
  What a call does: it returns a value, it returns an error, or it panics (the Go runtime
  aborts the call on a slice index out of range; nothing in the package recovers), or
  the runtime stops the whole process with a fatal error, which no \<open>recover\<close> could
  catch (\<open>Fatal\<close>). After \<open>Panic\<close> and \<open>Fatal\<close> no caller goes on.
\<close>

datatype 'a outcome = Ok 'a | Err error | Panic | Fatal

section \<open>The in-memory repository (repository/inMemory.go)\<close>

text \<open>
  The repository is the slice \<open>intervals\<close>; every method is modelled on that slice,
  taking it and, where the method writes, returning it. The embedding is sequential:
  every method is entered with the embedded \<open>sync.RWMutex\<close> free. \<open>Create\<close> and
  \<open>Update\<close> call \<open>r.Lock()\<close> and defer \<open>r.Unlock()\<close>, \<open>ByID\<close> calls
  \<open>r.RLock()\<close> and defers \<open>r.RUnlock()\<close>: each of these pairs leaves the mutex
  as it found it, and the three methods are written on the slice alone. \<open>Breaks\<close>
  does not make such a pair, so the read side of the mutex is written out for it below.
\<close>

type_synonym inMemoryRepo = "Interval list"

definition NewInMemoryRepo :: inMemoryRepo where
  "NewInMemoryRepo = []"

definition Create :: "Interval \<Rightarrow> inMemoryRepo \<Rightarrow> int outcome \<times> inMemoryRepo" where
  "Create i r =
     (let i' = i\<lparr>ID := int (length r) + 1\<rparr>
      in (Ok (ID i'), r @ [i']))"

text \<open>
  \<open>r.intervals[k]\<close> panics unless \<open>0 \<le> k < len(r.intervals)\<close>; \<open>Update\<close> and \<open>ByID\<close>
  guard the index by \<open>id == 0\<close> only.
\<close>

definition index_ok :: "int \<Rightarrow> inMemoryRepo \<Rightarrow> bool" where
  "index_ok k r = (0 \<le> k \<and> k < int (length r))"

definition Update :: "Interval \<Rightarrow> inMemoryRepo \<Rightarrow> unit outcome \<times> inMemoryRepo" where
  "Update i r =
     (if ID i = 0 then (Err (Errorf_d ErrInvalidID (ID i)), r)
      else if index_ok (ID i - 1) r then (Ok (), r[nat (ID i - 1) := i])
      else (Panic, r))"

definition ByID :: "int \<Rightarrow> inMemoryRepo \<Rightarrow> Interval outcome" where
  "ByID ident r =
     (if ident = 0 then Err (Errorf_d ErrInvalidID ident)
      else if index_ok (ident - 1) r then Ok (r ! nat (ident - 1))
      else Panic)"

text \<open>
  The loop of \<open>Breaks\<close>: \<open>for k := len - 1; k >= 0; k--\<close>. The first argument is
  \<open>k + 1\<close>, so that the loop ends at \<open>0\<close>; \<open>data\<close> is the slice built so far. The
  test \<open>len(data) == n\<close> comes after the append, as in the source.
\<close>

fun Breaks_loop :: "nat \<Rightarrow> int \<Rightarrow> inMemoryRepo \<Rightarrow> Interval list \<Rightarrow> Interval list" where
  "Breaks_loop 0 n r data = data"
| "Breaks_loop (Suc k) n r data =
     (if Category (r ! k) = CategoryPomodoro then Breaks_loop k n r data
      else let data' = data @ [r ! k]
           in if int (length data') = n then data' else Breaks_loop k n r data')"

text \<open>
  The read side of \<open>sync.RWMutex\<close>, on the number of read locks held. \<open>RLocker\<close>
  only returns a \<open>Locker\<close> value for the mutex and takes no lock. \<open>RUnlock\<close> undoes
  one \<open>RLock\<close>; on a mutex that is not locked for reading the runtime stops the
  process (fatal error: sync: RUnlock of unlocked RWMutex), which is the result \<open>None\<close>.
\<close>

definition RLocker :: "nat \<Rightarrow> nat" where
  "RLocker readers = readers"

definition RUnlock :: "nat \<Rightarrow> nat option" where
  "RUnlock readers = (if readers = 0 then None else Some (readers - 1))"

text \<open>
  \<open>Breaks\<close> opens with \<open>r.RLocker()\<close>, whose result it drops, and defers
  \<open>r.RUnlock()\<close>: the loop runs without a read lock and the deferred call, run at
  either \<open>return\<close>, finds the mutex unlocked.
\<close>

definition Breaks :: "int \<Rightarrow> inMemoryRepo \<Rightarrow> Interval list outcome" where
  "Breaks n r =
     (let readers = RLocker 0;
          data = Breaks_loop (length r) n r []
      in case RUnlock readers of
           None \<Rightarrow> Fatal
         | Some readers' \<Rightarrow> Ok data)"

text \<open>
  Modelled from the spec: the method \<open>Last\<close> of the in-memory repository. The interface
  \<open>Repository\<close> declares it and \<open>nextCategory\<close> and \<open>GetInterVal\<close> call it, but
  inMemory.go defines \<open>Create\<close>, \<open>Update\<close>, \<open>ByID\<close> and \<open>Breaks\<close> only. The
  persistence contract says: \<open>last() \<rightarrow> interval | error\<close>, fails with \<open>NoIntervals\<close>
  when the store is empty; otherwise it answers the most recent interval.
\<close>

definition Last :: "inMemoryRepo \<Rightarrow> Interval outcome" where
  "Last r = (if length r = 0 then Err ErrNoIntervals else Ok (r ! (length r - 1)))"

section \<open>Configuration, category sequencer and interval factory (interval.go)\<close>

text \<open>
  The field \<open>repo\<close> of \<open>IntervalConfig\<close> is the repository above; it is passed beside
  the configuration, which keeps the three durations.
\<close>

record IntervalConfig =
  PomodoroDuration :: int
  ShortBreakDuration :: int
  LongBreakDuration :: int

definition NewConfig :: "int \<Rightarrow> int \<Rightarrow> int \<Rightarrow> IntervalConfig" where
  "NewConfig pomodoro shortBreak longBreak =
     (let c = \<lparr>PomodoroDuration = 25 * Minute,
               ShortBreakDuration = 5 * Minute,
               LongBreakDuration = 15 * Minute\<rparr>;
          c = (if pomodoro > 0 then c\<lparr>PomodoroDuration := pomodoro\<rparr> else c);
          c = (if shortBreak > 0 then c\<lparr>ShortBreakDuration := shortBreak\<rparr> else c);
          c = (if longBreak > 0 then c\<lparr>LongBreakDuration := longBreak\<rparr> else c)
      in c)"

text \<open>The \<open>range\<close> loop of \<open>nextCategory\<close> over \<open>lastBreaks\<close>.\<close>

fun range_lastBreaks :: "Interval list \<Rightarrow> string" where
  "range_lastBreaks [] = CategoryLongBreak"
| "range_lastBreaks (i # rest) =
     (if Category i = CategoryLongBreak then CategoryShortBreak else range_lastBreaks rest)"

definition nextCategory :: "inMemoryRepo \<Rightarrow> string outcome" where
  "nextCategory r =
     (case Last r of
        Panic \<Rightarrow> Panic
      | Fatal \<Rightarrow> Fatal
      | Err err \<Rightarrow> if err = ErrNoIntervals then Ok CategoryPomodoro else Err err
      | Ok li \<Rightarrow>
          if Category li = CategoryLongBreak \<or> Category li = CategoryShortBreak
          then Ok CategoryPomodoro
          else (case Breaks 3 r of
                  Panic \<Rightarrow> Panic
                | Fatal \<Rightarrow> Fatal
                | Err err \<Rightarrow> Err err
                | Ok lastBreaks \<Rightarrow>
                    if length lastBreaks < 3 then Ok CategoryLongBreak
                    else Ok (range_lastBreaks lastBreaks)))"

definition newInterval :: "IntervalConfig \<Rightarrow> inMemoryRepo \<Rightarrow> Interval outcome \<times> inMemoryRepo" where
  "newInterval config r =
     (case nextCategory r of
        Panic \<Rightarrow> (Panic, r)
      | Fatal \<Rightarrow> (Fatal, r)
      | Err err \<Rightarrow> (Err err, r)
      | Ok category \<Rightarrow>
          let i = Interval_zero\<lparr>Category := category\<rparr>;
              i = (if category = CategoryPomodoro
                     then i\<lparr>PlannedDuration := PomodoroDuration config\<rparr>
                   else if category = CategoryShortBreak
                     then i\<lparr>PlannedDuration := ShortBreakDuration config\<rparr>
                   else if category = CategoryLongBreak
                     then i\<lparr>PlannedDuration := LongBreakDuration config\<rparr>
                   else i)
          in (case Create i r of
                (Panic, r') \<Rightarrow> (Panic, r')
              | (Fatal, r') \<Rightarrow> (Fatal, r')
              | (Err err, r') \<Rightarrow> (Err err, r')
              | (Ok ident, r') \<Rightarrow> (Ok (i\<lparr>ID := ident\<rparr>), r')))"

definition GetInterVal :: "IntervalConfig \<Rightarrow> inMemoryRepo \<Rightarrow> Interval outcome \<times> inMemoryRepo" where
  "GetInterVal config r =
     (case Last r of
        Panic \<Rightarrow> (Panic, r)
      | Fatal \<Rightarrow> (Fatal, r)
      | Err err \<Rightarrow> if err \<noteq> ErrNoIntervals then (Err err, r) else newInterval config r
      | Ok i \<Rightarrow>
          if State i \<noteq> StateCancelled \<and> State i \<noteq> StateDone then (Ok i, r)
          else newInterval config r)"

section \<open>Tick engine and session controller (interval.go)\<close>

text \<open>
  The callbacks \<open>start\<close>, \<open>periodic\<close> and \<open>end\<close> are arguments of the caller; the
  model records each invocation with the interval it is given, in order. The engine's
  state is the repository and that record.
\<close>

datatype call = Call_start Interval | Call_periodic Interval | Call_end Interval

record world =
  repo :: inMemoryRepo
  calls :: "call list"

text \<open>
  The \<open>select\<close> of \<open>tick\<close> waits on three channels: \<open>ticker.C\<close>, \<open>expire\<close> and
  \<open>ctx.Done()\<close>. Which of them is ready, and when, is decided outside the function
  (the clock and the caller), so the loop is modelled on the sequence of events the
  \<open>select\<close> receives; when the sequence is used up the loop is still waiting, which is
  the result \<open>None\<close>. Other goroutines (the caller's \<open>Pause\<close>) may write the repository
  while the loop waits: each event comes with the change \<open>env\<close> made to the repository
  since the previous one. The channel \<open>expire\<close> is set up from
  \<open>PlannedDuration - ActualDuration\<close> of the interval read at entry; when it fires
  belongs to the clock. A callback is taken to return without writing the repository.
\<close>

datatype event = Ticker_C | Expire | Ctx_Done

type_synonym step = "(inMemoryRepo \<Rightarrow> inMemoryRepo) \<times> event"

fun select_loop :: "step list \<Rightarrow> int \<Rightarrow> world \<Rightarrow> unit outcome option \<times> world" where
  "select_loop [] ident w = (None, w)"
| "select_loop ((env, Ticker_C) # evs) ident w =
     (let r = env (repo w)
      in case ByID ident r of
           Panic \<Rightarrow> (Some Panic, w\<lparr>repo := r\<rparr>)
         | Fatal \<Rightarrow> (Some Fatal, w\<lparr>repo := r\<rparr>)
         | Err err \<Rightarrow> (Some (Err err), w\<lparr>repo := r\<rparr>)
         | Ok i \<Rightarrow>
             if State i = StatePaused then (Some (Ok ()), w\<lparr>repo := r\<rparr>)
             else let i = i\<lparr>ActualDuration := ActualDuration i + Second\<rparr>
                  in case Update i r of
                       (Panic, r') \<Rightarrow> (Some Panic, w\<lparr>repo := r'\<rparr>)
                     | (Fatal, r') \<Rightarrow> (Some Fatal, w\<lparr>repo := r'\<rparr>)
                     | (Err err, r') \<Rightarrow> (Some (Err err), w\<lparr>repo := r'\<rparr>)
                     | (Ok u, r') \<Rightarrow>
                         select_loop evs ident
                           (w\<lparr>repo := r', calls := calls w @ [Call_periodic i]\<rparr>))"
| "select_loop ((env, Expire) # evs) ident w =
     (let r = env (repo w)
      in case ByID ident r of
           Panic \<Rightarrow> (Some Panic, w\<lparr>repo := r\<rparr>)
         | Fatal \<Rightarrow> (Some Fatal, w\<lparr>repo := r\<rparr>)
         | Err err \<Rightarrow> (Some (Err err), w\<lparr>repo := r\<rparr>)
         | Ok i \<Rightarrow>
             let i = i\<lparr>State := StateDone\<rparr>;
                 cs = calls w @ [Call_end i]
             in case Update i r of
                  (res, r') \<Rightarrow> (Some res, w\<lparr>repo := r', calls := cs\<rparr>))"
| "select_loop ((env, Ctx_Done) # evs) ident w =
     (let r = env (repo w)
      in case ByID ident r of
           Panic \<Rightarrow> (Some Panic, w\<lparr>repo := r\<rparr>)
         | Fatal \<Rightarrow> (Some Fatal, w\<lparr>repo := r\<rparr>)
         | Err err \<Rightarrow> (Some (Err err), w\<lparr>repo := r\<rparr>)
         | Ok i \<Rightarrow>
             let i = i\<lparr>State := StateCancelled\<rparr>
             in case Update i r of
                  (res, r') \<Rightarrow> (Some res, w\<lparr>repo := r'\<rparr>))"

definition tick :: "step list \<Rightarrow> int \<Rightarrow> world \<Rightarrow> unit outcome option \<times> world" where
  "tick evs ident w =
     (case ByID ident (repo w) of
        Panic \<Rightarrow> (Some Panic, w)
      | Fatal \<Rightarrow> (Some Fatal, w)
      | Err err \<Rightarrow> (Some (Err err), w)
      | Ok i \<Rightarrow> select_loop evs ident (w\<lparr>calls := calls w @ [Call_start i]\<rparr>))"

text \<open>
  \<open>Interval.Start\<close>; \<open>now\<close> is the value of \<open>time.Now()\<close>. The \<open>switch\<close> is written
  as the chain of its cases, \<open>StateNotStarted\<close> falling through into \<open>StatePaused\<close>.
\<close>

definition Start :: "Interval \<Rightarrow> int \<Rightarrow> step list \<Rightarrow> world \<Rightarrow> unit outcome option \<times> world" where
  "Start i now evs w =
     (if State i = StateRunning then (Some (Ok ()), w)
      else if State i = StateNotStarted \<or> State i = StatePaused then
        (let i = (if State i = StateNotStarted then i\<lparr>StartTime := now\<rparr> else i);
             i = i\<lparr>State := StateRunning\<rparr>
         in case Update i (repo w) of
              (Panic, r') \<Rightarrow> (Some Panic, w\<lparr>repo := r'\<rparr>)
            | (Fatal, r') \<Rightarrow> (Some Fatal, w\<lparr>repo := r'\<rparr>)
            | (Err err, r') \<Rightarrow> (Some (Err err), w\<lparr>repo := r'\<rparr>)
            | (Ok u, r') \<Rightarrow> tick evs (ID i) (w\<lparr>repo := r'\<rparr>))
      else if State i = StateCancelled \<or> State i = StateDone then
        (Some (Err (Errorf_Cannot_start ErrIntervalCompleted)), w)
      else (Some (Err (Errorf_d ErrInvalidState (State i))), w))"

definition Pause :: "Interval \<Rightarrow> inMemoryRepo \<Rightarrow> unit outcome \<times> inMemoryRepo" where
  "Pause i r =
     (if State i \<noteq> StateRunning then (Err ErrIntervalNotRunning, r)
      else Update (i\<lparr>State := StatePaused\<rparr>) r)"

section \<open>Reference definitions taken from the specification\<close>

text \<open>
  The three rules of the category sequencer, on the history of intervals in order of
  creation (the most recent one last). A rest category is \<open>ShortBreak\<close> or
  \<open>LongBreak\<close>; the rest intervals are read most recent first.
\<close>

definition is_rest_category :: "string \<Rightarrow> bool" where
  "is_rest_category c = (c = CategoryShortBreak \<or> c = CategoryLongBreak)"

definition recent_rests :: "nat \<Rightarrow> Interval list \<Rightarrow> Interval list" where
  "recent_rests n history =
     take n (filter (\<lambda>i. is_rest_category (Category i)) (rev history))"

definition nextCategory_rules :: "Interval list \<Rightarrow> string" where
  "nextCategory_rules history =
     (if history = [] then CategoryPomodoro
      else if is_rest_category (Category (last history)) then CategoryPomodoro
      else if length (recent_rests 3 history) < 3 then CategoryLongBreak
      else if CategoryLongBreak \<in> set (map Category (recent_rests 3 history))
        then CategoryShortBreak
      else CategoryLongBreak)"

text \<open>The data model of the specification: a category is one of the three constants.\<close>

definition category_ok :: "Interval \<Rightarrow> bool" where
  "category_ok i =
     (Category i = CategoryPomodoro \<or> Category i = CategoryShortBreak
      \<or> Category i = CategoryLongBreak)"

text \<open>
  Histories of the store: a sequence of \<open>Create\<close> and \<open>Update\<close> calls run from the
  empty repository, whatever each call answers.
\<close>

datatype repo_op = Op_Create Interval | Op_Update Interval

fun run_ops :: "repo_op list \<Rightarrow> inMemoryRepo \<Rightarrow> inMemoryRepo" where
  "run_ops [] r = r"
| "run_ops (Op_Create i # ops) r = run_ops ops (snd (Create i r))"
| "run_ops (Op_Update i # ops) r = run_ops ops (snd (Update i r))"

fun creates :: "repo_op list \<Rightarrow> nat" where
  "creates [] = 0"
| "creates (Op_Create i # ops) = Suc (creates ops)"
| "creates (Op_Update i # ops) = creates ops"

text \<open>The invariant of the slice: the record at position \<open>k\<close> carries id \<open>k + 1\<close>.\<close>

definition ids_sequential :: "inMemoryRepo \<Rightarrow> bool" where
  "ids_sequential r = (map ID r = map int [1 ..< Suc (length r)])"

text \<open>Counting the invocations of the callback \<open>end\<close> in a record of calls.\<close>

fun is_Call_end :: "call \<Rightarrow> bool" where
  "is_Call_end (Call_end i) = True"
| "is_Call_end c = False"

definition ends :: "call list \<Rightarrow> nat" where
  "ends cs = length (filter is_Call_end cs)"

section \<open>Helper lemmas\<close>

lemma categories_distinct:
  "CategoryPomodoro \<noteq> CategoryShortBreak" "CategoryPomodoro \<noteq> CategoryLongBreak"
  "CategoryShortBreak \<noteq> CategoryLongBreak"
  by (simp_all add: CategoryPomodoro_def CategoryShortBreak_def CategoryLongBreak_def)

text \<open>
  What the loop of \<open>Breaks\<close> computes for a positive \<open>n\<close>: the first \<open>n\<close> intervals
  that are not of category \<open>Pomodoro\<close>, read from the end of the slice.
\<close>

lemma Breaks_loop_take:
  "k \<le> length r \<Longrightarrow> int (length data) < n \<Longrightarrow>
   Breaks_loop k n r data =
     take (nat n) (data @ filter (\<lambda>i. Category i \<noteq> CategoryPomodoro) (rev (take k r)))"
proof (induction k arbitrary: data)
  case 0
  then show ?case by simp
next
  case (Suc k)
  have tk: "take (Suc k) r = take k r @ [r ! k]"
    using Suc.prems(1) by (simp add: take_Suc_conv_app_nth)
  show ?case
  proof (cases "Category (r ! k) = CategoryPomodoro")
    case True
    then show ?thesis using Suc by (simp add: tk)
  next
    case False
    show ?thesis
    proof (cases "int (length (data @ [r ! k])) = n")
      case True
      then have "nat n = Suc (length data)" by simp
      then show ?thesis using False True by (simp add: tk Let_def)
    next
      case neq: False
      then have lt: "int (length (data @ [r ! k])) < n" using Suc.prems(2) by simp
      have "Breaks_loop k n r (data @ [r ! k]) =
            take (nat n)
              ((data @ [r ! k]) @ filter (\<lambda>i. Category i \<noteq> CategoryPomodoro) (rev (take k r)))"
        using Suc.IH[OF _ lt] Suc.prems(1) by simp
      then show ?thesis using False neq by (simp add: tk Let_def)
    qed
  qed
qed

text \<open>The deferred \<open>RUnlock\<close> ends every call of \<open>Breaks\<close>.\<close>

lemma Breaks_Fatal: "Breaks n r = Fatal"
  by (simp add: Breaks_def RLocker_def RUnlock_def Let_def)

lemma range_lastBreaks_eq:
  "range_lastBreaks l =
     (if CategoryLongBreak \<in> set (map Category l) then CategoryShortBreak
      else CategoryLongBreak)"
  by (induction l) auto

lemma rest_filter:
  "\<forall>i \<in> set r. category_ok i \<Longrightarrow>
   filter (\<lambda>i. Category i \<noteq> CategoryPomodoro) r =
   filter (\<lambda>i. is_rest_category (Category i)) r"
  by (rule filter_cong)
    (auto simp: category_ok_def is_rest_category_def categories_distinct
      categories_distinct[symmetric])

lemma Last_eq: "r \<noteq> [] \<Longrightarrow> Last r = Ok (last r)"
  by (simp add: Last_def last_conv_nth)

text \<open>\<open>Create\<close> and \<open>Update\<close> keep the invariant of the slice.\<close>

lemma ids_sequential_Create: "ids_sequential r \<Longrightarrow> ids_sequential (snd (Create i r))"
  by (simp add: ids_sequential_def Create_def Let_def)

lemma ids_sequential_Update: "ids_sequential r \<Longrightarrow> ids_sequential (snd (Update i r))"
proof -
  assume a: "ids_sequential r"
  show ?thesis
  proof (cases "ID i \<noteq> 0 \<and> index_ok (ID i - 1) r")
    case True
    then have k: "nat (ID i - 1) < length r" and idk: "ID i = int (nat (ID i - 1)) + 1"
      by (auto simp: index_ok_def)
    have "map ID (r[nat (ID i - 1) := i]) = (map ID r)[nat (ID i - 1) := ID i]"
      by (simp add: map_update)
    also have "\<dots> = (map int [1 ..< Suc (length r)])[nat (ID i - 1) := ID i]"
      using a by (simp add: ids_sequential_def)
    also have "\<dots> = map int [1 ..< Suc (length r)]"
    proof (rule list_update_same_conv[THEN iffD2])
      show "nat (ID i - 1) < length (map int [1 ..< Suc (length r)])" using k by simp
      show "map int [1 ..< Suc (length r)] ! nat (ID i - 1) = ID i"
        using k idk by (simp del: upt_Suc)
    qed
    finally show ?thesis using True by (simp add: ids_sequential_def Update_def)
  next
    case False
    then show ?thesis using a by (auto simp: Update_def)
  qed
qed

lemma run_ops_invariant:
  "ids_sequential r \<Longrightarrow>
   ids_sequential (run_ops ops r) \<and> length (run_ops ops r) = length r + creates ops"
proof (induction ops r rule: run_ops.induct)
  case (1 r)
  then show ?case by simp
next
  case (2 i ops r)
  have "length (snd (Create i r)) = Suc (length r)" by (simp add: Create_def Let_def)
  then show ?case using 2 ids_sequential_Create[of r i] by simp
next
  case (3 i ops r)
  have "length (snd (Update i r)) = length r" by (simp add: Update_def)
  then show ?case using 3 ids_sequential_Update[of r i] by simp
qed

lemma ids_sequential_nth: "ids_sequential r \<Longrightarrow> k < length r \<Longrightarrow> ID (r ! k) = int k + 1"
proof -
  assume a: "ids_sequential r" and k: "k < length r"
  have "ID (r ! k) = map ID r ! k" using k by simp
  also have "\<dots> = map int [1 ..< Suc (length r)] ! k" using a by (simp add: ids_sequential_def)
  also have "\<dots> = int k + 1" using k by (simp del: upt_Suc)
  finally show ?thesis .
qed

lemma ids_sequential_distinct: "ids_sequential r \<Longrightarrow> distinct (map ID r)"
  by (simp add: ids_sequential_def distinct_map del: upt_Suc)

lemma ids_sequential_pos: "ids_sequential r \<Longrightarrow> j \<in> set r \<Longrightarrow> 0 < ID j"
  by (metis add.commute in_set_conv_nth ids_sequential_nth of_nat_Suc of_nat_0_less_iff
      zero_less_Suc)

section \<open>Category sequencer\<close>

text \<open>
  On a history whose intervals carry one of the three categories, the slice that the
  loop of \<open>Breaks\<close> has built when it returns, read by the rest of \<open>nextCategory\<close>,
  gives the category the three rules of the specification name: the data path of the
  code follows the rules.
\<close>

lemma nextCategory_data_path:
  assumes "\<forall>i \<in> set r. category_ok i"
    and "r \<noteq> []"
    and "\<not> is_rest_category (Category (last r))"
  shows "(if length (Breaks_loop (length r) 3 r []) < 3 then CategoryLongBreak
          else range_lastBreaks (Breaks_loop (length r) 3 r [])) = nextCategory_rules r"
proof -
  have f: "filter (\<lambda>i. Category i \<noteq> CategoryPomodoro) (rev r) =
           filter (\<lambda>i. is_rest_category (Category i)) (rev r)"
    using assms(1) by (intro rest_filter) simp
  have b: "Breaks_loop (length r) 3 r [] = recent_rests 3 r"
    using Breaks_loop_take[of "length r" r "[]" 3] by (simp add: f recent_rests_def)
  show ?thesis using assms(2,3)
    by (simp add: b nextCategory_rules_def range_lastBreaks_eq)
qed

text \<open>
  The first two rules do not reach \<open>Breaks\<close>: on the empty history and on a history
  whose most recent interval is a rest, \<open>nextCategory\<close> returns \<open>Pomodoro\<close>. On every
  other history it calls \<open>Breaks\<close> and the process stops there.
\<close>

lemma nextCategory_cases:
  "nextCategory r =
     (if r = [] \<or> is_rest_category (Category (last r)) then Ok CategoryPomodoro
      else Fatal)"
proof (cases "r = []")
  case True
  then show ?thesis by (simp add: nextCategory_def Last_def)
next
  case False
  then show ?thesis
    by (auto simp: nextCategory_def Last_eq Breaks_Fatal is_rest_category_def)
qed

text \<open>
  Claim C1. The claim does not hold of the code. On the history of one finished
  \<open>Pomodoro\<close> interval the three rules name \<open>LongBreak\<close> (fewer than three rest
  intervals exist), and \<open>nextCategory\<close> does not return: it calls \<open>Breaks\<close>, whose
  deferred \<open>RUnlock\<close> stops the process.
\<close>

theorem nextCategory_after_Pomodoro_Fatal:
  "nextCategory
     [Interval_zero\<lparr>ID := 1, PlannedDuration := 25 * Minute,
                      ActualDuration := 25 * Minute, Category := CategoryPomodoro,
                      State := StateDone\<rparr>] = Fatal
   \<and> nextCategory_rules
     [Interval_zero\<lparr>ID := 1, PlannedDuration := 25 * Minute,
                      ActualDuration := 25 * Minute, Category := CategoryPomodoro,
                      State := StateDone\<rparr>] = CategoryLongBreak"
  by (simp add: nextCategory_def Last_def Breaks_Fatal nextCategory_rules_def
      recent_rests_def is_rest_category_def Interval_zero_def categories_distinct)

section \<open>Failures of the repository\<close>

text \<open>
  Claim C2, as amended. \<open>Update\<close> with an interval whose id is zero, and \<open>ByID\<close> with id
  zero, return an error wrapping \<open>ErrInvalidID\<close>. With an id that is neither zero nor
  in \<open>1..len\<close> neither method returns an error: the slice index panics. The repository
  is the same after each of these calls.
\<close>

theorem Update_ByID_failures:
  "(ID i = 0 \<longrightarrow> Update i r = (Err (Errorf_d ErrInvalidID 0), r))
   \<and> ByID 0 r = Err (Errorf_d ErrInvalidID 0)
   \<and> errors_Is (Errorf_d ErrInvalidID 0) ErrInvalidID
   \<and> (ID j \<noteq> 0 \<and> \<not> (1 \<le> ID j \<and> ID j \<le> int (length r)) \<longrightarrow> Update j r = (Panic, r))
   \<and> (ident \<noteq> 0 \<and> \<not> (1 \<le> ident \<and> ident \<le> int (length r)) \<longrightarrow> ByID ident r = Panic)"
  by (auto simp: Update_def ByID_def index_ok_def)

theorem Update_ByID_failures_witness:
  "ID Interval_zero = 0
   \<and> Update Interval_zero [Interval_zero\<lparr>ID := 1\<rparr>] =
       (Err (Errorf_d ErrInvalidID 0), [Interval_zero\<lparr>ID := 1\<rparr>])
   \<and> Update (Interval_zero\<lparr>ID := 2\<rparr>) [Interval_zero\<lparr>ID := 1\<rparr>] =
       (Panic, [Interval_zero\<lparr>ID := 1\<rparr>])
   \<and> ByID (- 1) [Interval_zero\<lparr>ID := 1\<rparr>] = Panic"
  using Update_ByID_failures
    [of Interval_zero "[Interval_zero\<lparr>ID := 1\<rparr>]" "Interval_zero\<lparr>ID := 2\<rparr>" "- 1"]
  by (simp add: Interval_zero_def)

text \<open>
  Claim C2 as stated fails: on the empty repository \<open>Update\<close> and \<open>ByID\<close> with id
  \<open>1\<close>, which does not exist, panic and return no error value.
\<close>

theorem unknown_id_counterexample:
  "fst (Update (Interval_zero\<lparr>ID := 1\<rparr>) NewInMemoryRepo) = Panic
   \<and> ByID 1 NewInMemoryRepo = Panic"
  by (simp add: Update_def ByID_def NewInMemoryRepo_def index_ok_def Interval_zero_def)

section \<open>Interval factory\<close>

text \<open>
  Claim C3. On the empty repository \<open>GetInterVal\<close> creates, stores and returns one
  interval: id \<open>1\<close>, category \<open>Pomodoro\<close>, state \<open>StateNotStarted\<close>, no time elapsed,
  and as planned duration the work duration of the configuration, which is 25 minutes
  when \<open>NewConfig\<close> was given zero.
\<close>

theorem GetInterVal_empty:
  "GetInterVal (NewConfig pomodoro shortBreak longBreak) NewInMemoryRepo =
     (Ok \<lparr>ID = 1, StartTime = 0,
          PlannedDuration = PomodoroDuration (NewConfig pomodoro shortBreak longBreak),
          ActualDuration = 0, Category = CategoryPomodoro, State = StateNotStarted\<rparr>,
      [\<lparr>ID = 1, StartTime = 0,
        PlannedDuration = PomodoroDuration (NewConfig pomodoro shortBreak longBreak),
        ActualDuration = 0, Category = CategoryPomodoro, State = StateNotStarted\<rparr>])
   \<and> PomodoroDuration (NewConfig pomodoro shortBreak longBreak) =
       (if pomodoro > 0 then pomodoro else 25 * Minute)
   \<and> 25 * Minute = 1500 * Second"
  by (simp add: GetInterVal_def newInterval_def nextCategory_def Last_def NewInMemoryRepo_def
      Create_def NewConfig_def Interval_zero_def StateNotStarted_def Let_def Minute_def)

theorem GetInterVal_empty_witness:
  "GetInterVal (NewConfig 0 0 0) NewInMemoryRepo =
     (Ok \<lparr>ID = 1, StartTime = 0, PlannedDuration = 25 * Minute,
          ActualDuration = 0, Category = CategoryPomodoro, State = StateNotStarted\<rparr>,
      [\<lparr>ID = 1, StartTime = 0, PlannedDuration = 25 * Minute,
        ActualDuration = 0, Category = CategoryPomodoro, State = StateNotStarted\<rparr>])"
  using GetInterVal_empty [of 0 0 0] by simp

section \<open>The most recent interval\<close>

text \<open>
  Claim C4. \<open>Last\<close> fails with \<open>ErrNoIntervals\<close> exactly when the repository holds no
  interval; otherwise it returns the interval at the end of the slice, which after a
  \<open>Create\<close> is the interval just created, with the id \<open>Create\<close> gave it.
\<close>

theorem Last_contract:
  "(Last r = Err ErrNoIntervals \<longleftrightarrow> r = [])
   \<and> (r \<noteq> [] \<longrightarrow> Last r = Ok (last r))
   \<and> Last (snd (Create i r)) = Ok (i\<lparr>ID := int (length r) + 1\<rparr>)"
  by (auto simp: Last_def last_conv_nth Create_def Let_def)

theorem Last_contract_witness:
  "[Interval_zero\<lparr>ID := 1\<rparr>, Interval_zero\<lparr>ID := 2\<rparr>] \<noteq> []
   \<and> Last [Interval_zero\<lparr>ID := 1\<rparr>, Interval_zero\<lparr>ID := 2\<rparr>] = Ok (Interval_zero\<lparr>ID := 2\<rparr>)
   \<and> Last [] = Err ErrNoIntervals"
  using Last_contract [of "[Interval_zero\<lparr>ID := 1\<rparr>, Interval_zero\<lparr>ID := 2\<rparr>]"]
    Last_contract [of "[]"]
  by simp

section \<open>Session controller\<close>

text \<open>
  Claim C7. \<open>Start\<close> on an interval whose state is \<open>StateDone\<close> or \<open>StateCancelled\<close>
  returns an error that wraps \<open>ErrIntervalCompleted\<close>; the repository is not written
  and no callback is invoked.
\<close>

theorem Start_completed:
  "State i = StateDone \<or> State i = StateCancelled \<Longrightarrow>
   Start i now evs w = (Some (Err (Errorf_Cannot_start ErrIntervalCompleted)), w)
   \<and> errors_Is (Errorf_Cannot_start ErrIntervalCompleted) ErrIntervalCompleted"
  by (auto simp: Start_def StateDone_def StateCancelled_def StateRunning_def
      StateNotStarted_def StatePaused_def)

theorem Start_completed_witness:
  "(State (Interval_zero\<lparr>ID := 1, State := StateCancelled\<rparr>) = StateDone
    \<or> State (Interval_zero\<lparr>ID := 1, State := StateCancelled\<rparr>) = StateCancelled)
   \<and> Start (Interval_zero\<lparr>ID := 1, State := StateCancelled\<rparr>) 7 [(\<lambda>r. r, Ticker_C)]
       \<lparr>repo = [Interval_zero\<lparr>ID := 1, State := StateCancelled\<rparr>], calls = []\<rparr> =
     (Some (Err (Errorf_Cannot_start ErrIntervalCompleted)),
      \<lparr>repo = [Interval_zero\<lparr>ID := 1, State := StateCancelled\<rparr>], calls = []\<rparr>)"
  using Start_completed
    [of "Interval_zero\<lparr>ID := 1, State := StateCancelled\<rparr>" 7 "[(\<lambda>r. r, Ticker_C)]"
        "\<lparr>repo = [Interval_zero\<lparr>ID := 1, State := StateCancelled\<rparr>], calls = []\<rparr>"]
  by simp

text \<open>
  Claim C8. \<open>Pause\<close> on an interval whose state is not \<open>StateRunning\<close> returns
  \<open>ErrIntervalNotRunning\<close> and leaves the repository as it was. When \<open>Pause\<close> succeeds
  the state was \<open>StateRunning\<close> and the repository holds, under the interval's id, the
  interval with state \<open>StatePaused\<close>; on a running interval \<open>Pause\<close> is the \<open>Update\<close>
  of that interval.
\<close>

theorem Pause_states:
  "(State i \<noteq> StateRunning \<longrightarrow> Pause i r = (Err ErrIntervalNotRunning, r))
   \<and> (Pause j r = (Ok (), r') \<longrightarrow>
        State j = StateRunning \<and> r' = r[nat (ID j - 1) := j\<lparr>State := StatePaused\<rparr>]
        \<and> ByID (ID j) r' = Ok (j\<lparr>State := StatePaused\<rparr>))
   \<and> (State j = StateRunning \<longrightarrow> Pause j r = Update (j\<lparr>State := StatePaused\<rparr>) r)"
  by (auto simp: Pause_def Update_def ByID_def index_ok_def split: if_splits)

theorem Pause_states_witness:
  "State (Interval_zero\<lparr>ID := 1, State := StatePaused\<rparr>) \<noteq> StateRunning
   \<and> Pause (Interval_zero\<lparr>ID := 1, State := StatePaused\<rparr>)
       [Interval_zero\<lparr>ID := 1, State := StateRunning\<rparr>] =
       (Err ErrIntervalNotRunning, [Interval_zero\<lparr>ID := 1, State := StateRunning\<rparr>])
   \<and> State (Interval_zero\<lparr>ID := 1, State := StateRunning\<rparr>) = StateRunning
   \<and> Pause (Interval_zero\<lparr>ID := 1, State := StateRunning\<rparr>)
       [Interval_zero\<lparr>ID := 1, State := StateRunning\<rparr>] =
       (Ok (), [Interval_zero\<lparr>ID := 1, State := StatePaused\<rparr>])
   \<and> ByID 1 [Interval_zero\<lparr>ID := 1, State := StatePaused\<rparr>] =
       Ok (Interval_zero\<lparr>ID := 1, State := StatePaused\<rparr>)"
  using Pause_states
    [of "Interval_zero\<lparr>ID := 1, State := StatePaused\<rparr>"
        "[Interval_zero\<lparr>ID := 1, State := StateRunning\<rparr>]"
        "Interval_zero\<lparr>ID := 1, State := StateRunning\<rparr>"
        "[Interval_zero\<lparr>ID := 1, State := StatePaused\<rparr>]"]
  by (simp add: Interval_zero_def StateRunning_def StatePaused_def Update_def index_ok_def)

text \<open>
  Claim C9. \<open>Start\<close> on an interval whose state is \<open>StateRunning\<close> returns success at
  once: the repository (and with it the stored start time and elapsed time) and the
  record of callbacks are as before, and the tick engine is not entered, whatever events
  are pending.
\<close>

theorem Start_running:
  "State i = StateRunning \<Longrightarrow> Start i now evs w = (Some (Ok ()), w)"
  by (simp add: Start_def)

theorem Start_running_witness:
  "State (Interval_zero\<lparr>ID := 1, State := StateRunning\<rparr>) = StateRunning
   \<and> Start (Interval_zero\<lparr>ID := 1, State := StateRunning\<rparr>) 7 [(\<lambda>r. r, Expire)]
       \<lparr>repo = [Interval_zero\<lparr>ID := 1, State := StateRunning\<rparr>], calls = []\<rparr> =
     (Some (Ok ()), \<lparr>repo = [Interval_zero\<lparr>ID := 1, State := StateRunning\<rparr>], calls = []\<rparr>)"
  using Start_running
    [of "Interval_zero\<lparr>ID := 1, State := StateRunning\<rparr>" 7 "[(\<lambda>r. r, Expire)]"
        "\<lparr>repo = [Interval_zero\<lparr>ID := 1, State := StateRunning\<rparr>], calls = []\<rparr>"]
  by simp

section \<open>Identifiers assigned by the repository\<close>

text \<open>
  Claim C10. \<open>Create\<close> returns no error and the id it returns is one more than the
  number of intervals created before it. In every repository reached from the empty one
  by \<open>Create\<close> and \<open>Update\<close> calls the record at position \<open>k\<close> carries id \<open>k + 1\<close>, so
  the ids are pairwise different and positive.
\<close>

theorem Create_assigns_sequential_ids:
  "fst (Create i r) = Ok (int (length r) + 1)
   \<and> fst (Create i (run_ops ops NewInMemoryRepo)) = Ok (int (creates ops) + 1)
   \<and> (\<forall>k < length (run_ops ops NewInMemoryRepo).
         ID (run_ops ops NewInMemoryRepo ! k) = int k + 1)
   \<and> distinct (map ID (run_ops ops NewInMemoryRepo))
   \<and> (\<forall>j \<in> set (run_ops ops NewInMemoryRepo). 0 < ID j)"
proof -
  have e: "ids_sequential NewInMemoryRepo"
    by (simp add: ids_sequential_def NewInMemoryRepo_def)
  have inv: "ids_sequential (run_ops ops NewInMemoryRepo)"
    and len: "length (run_ops ops NewInMemoryRepo) = creates ops"
    using run_ops_invariant[OF e, of ops] by (simp_all add: NewInMemoryRepo_def)
  have "fst (Create i (run_ops ops NewInMemoryRepo)) = Ok (int (creates ops) + 1)"
    by (simp add: Create_def Let_def len)
  moreover have "fst (Create i r) = Ok (int (length r) + 1)"
    by (simp add: Create_def Let_def)
  ultimately show ?thesis
    using ids_sequential_nth[OF inv] ids_sequential_distinct[OF inv] ids_sequential_pos[OF inv]
    by blast
qed

theorem Create_assigns_sequential_ids_witness:
  "fst (Create Interval_zero
          (run_ops [Op_Create Interval_zero,
                    Op_Update (Interval_zero\<lparr>ID := 1, State := StateRunning\<rparr>),
                    Op_Update (Interval_zero\<lparr>ID := 5\<rparr>),
                    Op_Create Interval_zero] NewInMemoryRepo)) = Ok 3
   \<and> (1::nat) < length (run_ops [Op_Create Interval_zero,
                    Op_Update (Interval_zero\<lparr>ID := 1, State := StateRunning\<rparr>),
                    Op_Update (Interval_zero\<lparr>ID := 5\<rparr>),
                    Op_Create Interval_zero] NewInMemoryRepo)
   \<and> ID (run_ops [Op_Create Interval_zero,
                    Op_Update (Interval_zero\<lparr>ID := 1, State := StateRunning\<rparr>),
                    Op_Update (Interval_zero\<lparr>ID := 5\<rparr>),
                    Op_Create Interval_zero] NewInMemoryRepo ! 1) = 2
   \<and> Interval_zero\<lparr>ID := 1, State := StateRunning\<rparr>
       \<in> set (run_ops [Op_Create Interval_zero,
                    Op_Update (Interval_zero\<lparr>ID := 1, State := StateRunning\<rparr>),
                    Op_Update (Interval_zero\<lparr>ID := 5\<rparr>),
                    Op_Create Interval_zero] NewInMemoryRepo)"
  using Create_assigns_sequential_ids
    [of Interval_zero "[]" "[Op_Create Interval_zero,
                    Op_Update (Interval_zero\<lparr>ID := 1, State := StateRunning\<rparr>),
                    Op_Update (Interval_zero\<lparr>ID := 5\<rparr>),
                    Op_Create Interval_zero]"]
  by (simp add: NewInMemoryRepo_def Create_def Update_def index_ok_def Interval_zero_def)

section \<open>Tick engine\<close>

text \<open>
  A run of the loop over two sequences of events is the run over the first, continued
  over the second when the first left the loop waiting.
\<close>

lemma select_loop_append:
  "select_loop (evs @ evs') ident w =
     (case select_loop evs ident w of
        (None, w') \<Rightarrow> select_loop evs' ident w'
      | (Some res, w') \<Rightarrow> (Some res, w'))"
  by (induction evs ident w rule: select_loop.induct)
     (auto simp: Let_def split: outcome.splits prod.splits)

lemma tick_append:
  "tick (evs @ evs') ident w =
     (case tick evs ident w of
        (None, w') \<Rightarrow> select_loop evs' ident w'
      | (Some res, w') \<Rightarrow> (Some res, w'))"
  by (simp add: tick_def select_loop_append split: outcome.splits)

text \<open>
  One event of the ticker either ends the loop, with no callback, or lets it go on after
  one invocation of \<open>periodic\<close>.
\<close>

lemma Ticker_C_step:
  "(\<exists>out rr. \<forall>evs. select_loop ((env, Ticker_C) # evs) ident w = (Some out, w\<lparr>repo := rr\<rparr>))
   \<or> (\<exists>i rr. \<forall>evs. select_loop ((env, Ticker_C) # evs) ident w =
         select_loop evs ident (w\<lparr>repo := rr, calls := calls w @ [Call_periodic i]\<rparr>))"
proof (cases "ByID ident (env (repo w))")
  case (Ok i)
  show ?thesis
  proof (cases "State i = StatePaused")
    case True
    then show ?thesis using Ok by (auto simp: Let_def)
  next
    case False
    obtain res r' where u: "Update (i\<lparr>ActualDuration := ActualDuration i + Second\<rparr>)
        (env (repo w)) = (res, r')"
      by (cases "Update (i\<lparr>ActualDuration := ActualDuration i + Second\<rparr>) (env (repo w))")
    show ?thesis
    proof (cases res)
      case (Ok u')
      have "\<forall>evs. select_loop ((env, Ticker_C) # evs) ident w =
         select_loop evs ident (w\<lparr>repo := r', calls := calls w @
            [Call_periodic (i\<lparr>ActualDuration := ActualDuration i + Second\<rparr>)]\<rparr>)"
        using \<open>ByID ident (env (repo w)) = Ok i\<close> False u Ok by (simp add: Let_def)
      then show ?thesis by blast
    next
      case (Err e)
      have "\<forall>evs. select_loop ((env, Ticker_C) # evs) ident w = (Some (Err e), w\<lparr>repo := r'\<rparr>)"
        using \<open>ByID ident (env (repo w)) = Ok i\<close> False u Err by (simp add: Let_def)
      then show ?thesis by blast
    next
      case Panic
      have "\<forall>evs. select_loop ((env, Ticker_C) # evs) ident w = (Some Panic, w\<lparr>repo := r'\<rparr>)"
        using \<open>ByID ident (env (repo w)) = Ok i\<close> False u Panic by (simp add: Let_def)
      then show ?thesis by blast
    next
      case Fatal
      have "\<forall>evs. select_loop ((env, Ticker_C) # evs) ident w = (Some Fatal, w\<lparr>repo := r'\<rparr>)"
        using \<open>ByID ident (env (repo w)) = Ok i\<close> False u Fatal by (simp add: Let_def)
      then show ?thesis by blast
    qed
  qed
next
  case (Err e)
  then have "\<forall>evs. select_loop ((env, Ticker_C) # evs) ident w =
      (Some (Err e), w\<lparr>repo := env (repo w)\<rparr>)"
    by (simp add: Let_def)
  then show ?thesis by blast
next
  case Panic
  then have "\<forall>evs. select_loop ((env, Ticker_C) # evs) ident w =
      (Some Panic, w\<lparr>repo := env (repo w)\<rparr>)"
    by (simp add: Let_def)
  then show ?thesis by blast
next
  case Fatal
  then have "\<forall>evs. select_loop ((env, Ticker_C) # evs) ident w =
      (Some Fatal, w\<lparr>repo := env (repo w)\<rparr>)"
    by (simp add: Let_def)
  then show ?thesis by blast
qed

lemma ends_periodic: "ends (cs @ [Call_periodic i]) = ends cs"
  by (simp add: ends_def)

text \<open>
  A run invokes \<open>end\<close> at most once, not at all while it is still waiting, and only
  when it came to an event of \<open>expire\<close> while waiting.
\<close>

lemma select_loop_ends:
  "select_loop evs ident w = (res, w') \<Longrightarrow>
   ends (calls w') \<le> ends (calls w) + 1
   \<and> (res = None \<longrightarrow> ends (calls w') = ends (calls w))
   \<and> (ends (calls w') \<noteq> ends (calls w) \<longrightarrow>
        (\<exists>pre env rest. evs = pre @ (env, Expire) # rest
           \<and> fst (select_loop pre ident w) = None))"
proof (induction evs arbitrary: w res w')
  case Nil
  then show ?case by simp
next
  case (Cons st evs)
  obtain env ev where st: "st = (env, ev)" by (cases st)
  show ?case
  proof (cases ev)
    case Ticker_C
    from Ticker_C_step[of env ident w] show ?thesis
    proof (elim disjE exE)
      fix out rr
      assume "\<forall>evs. select_loop ((env, Ticker_C) # evs) ident w = (Some out, w\<lparr>repo := rr\<rparr>)"
      then have "res = Some out" "w' = w\<lparr>repo := rr\<rparr>"
        using Cons.prems st Ticker_C by auto
      then show ?thesis by simp
    next
      fix i rr
      assume a: "\<forall>evs. select_loop ((env, Ticker_C) # evs) ident w =
         select_loop evs ident (w\<lparr>repo := rr, calls := calls w @ [Call_periodic i]\<rparr>)"
      let ?w2 = "w\<lparr>repo := rr, calls := calls w @ [Call_periodic i]\<rparr>"
      have run: "select_loop evs ident ?w2 = (res, w')"
        using Cons.prems st Ticker_C a by simp
      have e2: "ends (calls ?w2) = ends (calls w)" by (simp add: ends_periodic)
      note ih = Cons.IH[OF run]
      have "\<exists>pre env' rest. st # evs = pre @ (env', Expire) # rest
              \<and> fst (select_loop pre ident w) = None"
        if "ends (calls w') \<noteq> ends (calls w)"
      proof -
        from ih that e2 obtain pre env' rest where
          p: "evs = pre @ (env', Expire) # rest" "fst (select_loop pre ident ?w2) = None"
          by auto
        have "st # evs = (st # pre) @ (env', Expire) # rest" using p(1) by simp
        moreover have "fst (select_loop (st # pre) ident w) = None"
          using a p(2) st Ticker_C by simp
        ultimately show ?thesis by blast
      qed
      then show ?thesis using ih e2 by auto
    qed
  next
    case Expire
    have "fst (select_loop [] ident w) = None" by simp
    then have "\<exists>pre enva rest. st # evs = pre @ (enva, Expire) # rest
           \<and> fst (select_loop pre ident w) = None"
      using st Expire by (metis append_Nil)
    moreover have "ends (calls w') \<le> ends (calls w) + 1 \<and> res \<noteq> None"
      using Cons.prems st Expire
      by (auto simp: Let_def ends_def split: outcome.splits prod.splits)
    ultimately show ?thesis by blast
  next
    case Ctx_Done
    then show ?thesis using Cons.prems st
      by (auto simp: Let_def ends_def split: outcome.splits prod.splits)
  qed
qed

lemma tick_ends:
  "tick evs ident w = (res, w') \<Longrightarrow>
   ends (calls w') \<le> ends (calls w) + 1
   \<and> (res = None \<longrightarrow> ends (calls w') = ends (calls w))
   \<and> (ends (calls w') \<noteq> ends (calls w) \<longrightarrow>
        (\<exists>pre env rest. evs = pre @ (env, Expire) # rest
           \<and> fst (tick pre ident w) = None))"
proof (cases "ByID ident (repo w)")
  case (Ok i)
  let ?w1 = "w\<lparr>calls := calls w @ [Call_start i]\<rparr>"
  assume "tick evs ident w = (res, w')"
  then have run: "select_loop evs ident ?w1 = (res, w')" using Ok by (simp add: tick_def)
  have e1: "ends (calls ?w1) = ends (calls w)" by (simp add: ends_def)
  have t: "tick pre ident w = select_loop pre ident ?w1" for pre
    using Ok by (simp add: tick_def)
  show ?thesis using select_loop_ends[OF run] unfolding e1 t by blast
next
  case (Err e)
  assume "tick evs ident w = (res, w')"
  then show ?thesis using Err by (auto simp: tick_def)
next
  case Panic
  assume "tick evs ident w = (res, w')"
  then show ?thesis using Panic by (auto simp: tick_def)
next
  case Fatal
  assume "tick evs ident w = (res, w')"
  then show ?thesis using Fatal by (auto simp: tick_def)
qed

text \<open>
  Claim C5. While the engine waits in its loop (after the events \<open>evs\<close>), an event of
  the ticker at which the interval read back from the repository is in state
  \<open>StatePaused\<close> ends the engine with success. The repository is what the other
  goroutines left (\<open>env\<close>), the engine writes nothing: the interval under the id is
  still the one read, with its elapsed time, and the record of callbacks is as before
  the event, so \<open>periodic\<close> is not invoked.
\<close>

theorem tick_observes_pause:
  assumes "tick evs ident w = (None, w')"
    and "ByID ident (env (repo w')) = Ok i"
    and "State i = StatePaused"
  shows "tick (evs @ (env, Ticker_C) # rest) ident w =
           (Some (Ok ()), w'\<lparr>repo := env (repo w')\<rparr>)
         \<and> ByID ident (repo (snd (tick (evs @ (env, Ticker_C) # rest) ident w))) = Ok i
         \<and> calls (snd (tick (evs @ (env, Ticker_C) # rest) ident w)) = calls w'"
  using assms by (simp add: tick_append Let_def)

theorem tick_observes_pause_witness:
  "tick [(\<lambda>r. r, Ticker_C)] 1
     \<lparr>repo = [Interval_zero\<lparr>ID := 1, State := StateRunning\<rparr>], calls = []\<rparr> =
     (None,
      \<lparr>repo = [Interval_zero\<lparr>ID := 1, ActualDuration := Second, State := StateRunning\<rparr>],
       calls = [Call_start (Interval_zero\<lparr>ID := 1, State := StateRunning\<rparr>),
                Call_periodic (Interval_zero\<lparr>ID := 1, ActualDuration := Second,
                                 State := StateRunning\<rparr>)]\<rparr>)
   \<and> ByID 1 [Interval_zero\<lparr>ID := 1, ActualDuration := Second, State := StatePaused\<rparr>] =
       Ok (Interval_zero\<lparr>ID := 1, ActualDuration := Second, State := StatePaused\<rparr>)
   \<and> State (Interval_zero\<lparr>ID := 1, ActualDuration := Second, State := StatePaused\<rparr>) =
       StatePaused
   \<and> tick [(\<lambda>r. r, Ticker_C),
            (\<lambda>r. snd (Pause (Interval_zero\<lparr>ID := 1, ActualDuration := Second,
                                 State := StateRunning\<rparr>) r), Ticker_C),
            (\<lambda>r. r, Expire)] 1
       \<lparr>repo = [Interval_zero\<lparr>ID := 1, State := StateRunning\<rparr>], calls = []\<rparr> =
     (Some (Ok ()),
      \<lparr>repo = [Interval_zero\<lparr>ID := 1, ActualDuration := Second, State := StatePaused\<rparr>],
       calls = [Call_start (Interval_zero\<lparr>ID := 1, State := StateRunning\<rparr>),
                Call_periodic (Interval_zero\<lparr>ID := 1, ActualDuration := Second,
                                 State := StateRunning\<rparr>)]\<rparr>)"
  using tick_observes_pause
    [of "[(\<lambda>r. r, Ticker_C)]" 1
        "\<lparr>repo = [Interval_zero\<lparr>ID := 1, State := StateRunning\<rparr>], calls = []\<rparr>"
        "\<lparr>repo = [Interval_zero\<lparr>ID := 1, ActualDuration := Second, State := StateRunning\<rparr>],
          calls = [Call_start (Interval_zero\<lparr>ID := 1, State := StateRunning\<rparr>),
                   Call_periodic (Interval_zero\<lparr>ID := 1, ActualDuration := Second,
                                    State := StateRunning\<rparr>)]\<rparr>"
        "\<lambda>r. snd (Pause (Interval_zero\<lparr>ID := 1, ActualDuration := Second,
                                 State := StateRunning\<rparr>) r)"
        "Interval_zero\<lparr>ID := 1, ActualDuration := Second, State := StatePaused\<rparr>"
        "[(\<lambda>r. r, Expire)]"]
  by (simp add: tick_def ByID_def Update_def Pause_def index_ok_def Interval_zero_def
      StateRunning_def StatePaused_def Let_def)

text \<open>
  Claim C6. While the engine waits in its loop (after the events \<open>evs\<close>), the
  cancellation event makes it read the interval back, set its state to
  \<open>StateCancelled\<close>, call \<open>Update\<close> and return what \<open>Update\<close> returns. No callback is
  invoked at this event and \<open>end\<close> was not invoked before it. When the interval read
  carries the id it was read under, \<open>Update\<close> succeeds and the repository holds the
  interval as read, elapsed time included, with the new state. In any run of the engine
  \<open>end\<close> is invoked at most once, and when it is, the run came to an event of
  \<open>expire\<close> while it was waiting.
\<close>

theorem tick_cancel:
  assumes "tick evs ident w = (None, w')"
    and "ByID ident (env (repo w')) = Ok i"
  shows "tick (evs @ (env, Ctx_Done) # rest) ident w =
           (Some (fst (Update (i\<lparr>State := StateCancelled\<rparr>) (env (repo w')))),
            w'\<lparr>repo := snd (Update (i\<lparr>State := StateCancelled\<rparr>) (env (repo w')))\<rparr>)
         \<and> ends (calls w') = ends (calls w)
         \<and> (ID i = ident \<longrightarrow>
              Update (i\<lparr>State := StateCancelled\<rparr>) (env (repo w')) =
                (Ok (), (env (repo w'))[nat (ident - 1) := i\<lparr>State := StateCancelled\<rparr>])
              \<and> ByID ident (snd (Update (i\<lparr>State := StateCancelled\<rparr>) (env (repo w')))) =
                  Ok (i\<lparr>State := StateCancelled\<rparr>))
         \<and> (tick evs2 ident w = (res, w2) \<longrightarrow>
               ends (calls w2) \<le> ends (calls w) + 1
               \<and> (ends (calls w2) \<noteq> ends (calls w) \<longrightarrow>
                    (\<exists>pre env2 rest2. evs2 = pre @ (env2, Expire) # rest2
                        \<and> fst (tick pre ident w) = None)))"
proof -
  have a: "tick (evs @ (env, Ctx_Done) # rest) ident w =
           (Some (fst (Update (i\<lparr>State := StateCancelled\<rparr>) (env (repo w')))),
            w'\<lparr>repo := snd (Update (i\<lparr>State := StateCancelled\<rparr>) (env (repo w')))\<rparr>)"
    using assms by (simp add: tick_append Let_def split: prod.splits)
  have b: "ends (calls w') = ends (calls w)"
    using tick_ends[OF assms(1)] by simp
  have c: "ID i = ident \<longrightarrow>
              Update (i\<lparr>State := StateCancelled\<rparr>) (env (repo w')) =
                (Ok (), (env (repo w'))[nat (ident - 1) := i\<lparr>State := StateCancelled\<rparr>])
              \<and> ByID ident (snd (Update (i\<lparr>State := StateCancelled\<rparr>) (env (repo w')))) =
                  Ok (i\<lparr>State := StateCancelled\<rparr>)"
    using assms(2) by (auto simp: Update_def ByID_def index_ok_def split: if_splits)
  have d: "tick evs2 ident w = (res, w2) \<longrightarrow>
               ends (calls w2) \<le> ends (calls w) + 1
               \<and> (ends (calls w2) \<noteq> ends (calls w) \<longrightarrow>
                    (\<exists>pre env2 rest2. evs2 = pre @ (env2, Expire) # rest2
                        \<and> fst (tick pre ident w) = None))"
    using tick_ends[of evs2 ident w res w2] by blast
  show ?thesis using a b c d by blast
qed

theorem tick_cancel_witness:
  "tick [(\<lambda>r. r, Ticker_C)] 1
     \<lparr>repo = [Interval_zero\<lparr>ID := 1, State := StateRunning\<rparr>], calls = []\<rparr> =
     (None,
      \<lparr>repo = [Interval_zero\<lparr>ID := 1, ActualDuration := Second, State := StateRunning\<rparr>],
       calls = [Call_start (Interval_zero\<lparr>ID := 1, State := StateRunning\<rparr>),
                Call_periodic (Interval_zero\<lparr>ID := 1, ActualDuration := Second,
                                 State := StateRunning\<rparr>)]\<rparr>)
   \<and> ByID 1 [Interval_zero\<lparr>ID := 1, ActualDuration := Second, State := StateRunning\<rparr>] =
       Ok (Interval_zero\<lparr>ID := 1, ActualDuration := Second, State := StateRunning\<rparr>)
   \<and> tick [(\<lambda>r. r, Ticker_C), (\<lambda>r. r, Ctx_Done), (\<lambda>r. r, Expire)] 1
       \<lparr>repo = [Interval_zero\<lparr>ID := 1, State := StateRunning\<rparr>], calls = []\<rparr> =
     (Some (Ok ()),
      \<lparr>repo = [Interval_zero\<lparr>ID := 1, ActualDuration := Second, State := StateCancelled\<rparr>],
       calls = [Call_start (Interval_zero\<lparr>ID := 1, State := StateRunning\<rparr>),
                Call_periodic (Interval_zero\<lparr>ID := 1, ActualDuration := Second,
                                 State := StateRunning\<rparr>)]\<rparr>)
   \<and> tick [(\<lambda>r. r, Expire)] 1
       \<lparr>repo = [Interval_zero\<lparr>ID := 1, State := StateRunning\<rparr>], calls = []\<rparr> =
     (Some (Ok ()),
      \<lparr>repo = [Interval_zero\<lparr>ID := 1, State := StateDone\<rparr>],
       calls = [Call_start (Interval_zero\<lparr>ID := 1, State := StateRunning\<rparr>),
                Call_end (Interval_zero\<lparr>ID := 1, State := StateDone\<rparr>)]\<rparr>)
   \<and> ends [Call_start (Interval_zero\<lparr>ID := 1, State := StateRunning\<rparr>),
           Call_end (Interval_zero\<lparr>ID := 1, State := StateDone\<rparr>)] = 1"
  using tick_cancel
    [of "[(\<lambda>r. r, Ticker_C)]" 1
        "\<lparr>repo = [Interval_zero\<lparr>ID := 1, State := StateRunning\<rparr>], calls = []\<rparr>"
        "\<lparr>repo = [Interval_zero\<lparr>ID := 1, ActualDuration := Second, State := StateRunning\<rparr>],
          calls = [Call_start (Interval_zero\<lparr>ID := 1, State := StateRunning\<rparr>),
                   Call_periodic (Interval_zero\<lparr>ID := 1, ActualDuration := Second,
                                    State := StateRunning\<rparr>)]\<rparr>"
        "\<lambda>r. r"
        "Interval_zero\<lparr>ID := 1, ActualDuration := Second, State := StateRunning\<rparr>"
        "[(\<lambda>r. r, Expire)]"
        "[(\<lambda>r. r, Expire)]"
        "Some (Ok ())"
        "\<lparr>repo = [Interval_zero\<lparr>ID := 1, State := StateDone\<rparr>],
          calls = [Call_start (Interval_zero\<lparr>ID := 1, State := StateRunning\<rparr>),
                   Call_end (Interval_zero\<lparr>ID := 1, State := StateDone\<rparr>)]\<rparr>"]
  by (simp add: tick_def ByID_def Update_def index_ok_def Interval_zero_def ends_def
      StateRunning_def StatePaused_def StateCancelled_def StateDone_def Let_def)

end
